theory Spec2Isabelle
  imports Main "HOL-Library.AList"
begin

section \<open>Python values and text\<close>

text \<open>
  The script \<^verbatim>\<open>oi_local.py\<close> keeps the interpreter's message list in a JSON file and
  wraps the interpreter's chat loop in a try/except/finally block. Its own code is three
  functions (\<^verbatim>\<open>load_memory\<close>, \<^verbatim>\<open>save_memory\<close>, \<^verbatim>\<open>start_with_logging\<close>); everything else
  is a call into the Python standard library or into the interpreter library.

  A Python \<^verbatim>\<open>str\<close> is a sequence of code points, so text is a list of naturals. File
  names are ASCII and stay Isabelle strings.
\<close>

type_synonym pystr = "nat list"

definition str :: "string \<Rightarrow> pystr" where
  "str s = map of_char s"

text \<open>
  The values \<^verbatim>\<open>oi.messages\<close> can hold: what \<^verbatim>\<open>json.load\<close> returns (null, booleans,
  integers, strings, lists, dictionaries with string keys, in insertion order), and
  \<open>PyObject\<close>, any other Python object (bytes, a set, a class instance), which
  \<^verbatim>\<open>json.dump\<close> cannot serialize. Floating-point numbers are not modelled.
\<close>

datatype pyval =
    PyNone
  | PyBool bool
  | PyInt int
  | PyStr pystr
  | PyList "pyval list"
  | PyDict "(pystr \<times> pyval) list"
  | PyObject nat

text \<open>\<^verbatim>\<open>len(x)\<close>: defined on strings, lists and dictionaries, a \<^verbatim>\<open>TypeError\<close> on the other
  values \<^verbatim>\<open>json.load\<close> can return.\<close>

fun py_len :: "pyval \<Rightarrow> nat option" where
  "py_len (PyStr s) = Some (length s)"
| "py_len (PyList lst) = Some (length lst)"
| "py_len (PyDict dct) = Some (length dct)"
| "py_len _ = None"

section \<open>\<^verbatim>\<open>json.dump(obj, f, indent=4, ensure_ascii=False)\<close>\<close>

text \<open>\<^verbatim>\<open>int.__repr__\<close>: decimal digits, a minus sign for negative numbers.\<close>

fun nat_repr :: "nat \<Rightarrow> pystr" where
  "nat_repr n = (if n < 10 then [48 + n] else nat_repr (n div 10) @ [48 + n mod 10])"

declare nat_repr.simps [simp del]

definition int_repr :: "int \<Rightarrow> pystr" where
  "int_repr i = (if i < 0 then 45 # nat_repr (nat (- i)) else nat_repr (nat i))"

text \<open>
  \<^verbatim>\<open>encode_basestring\<close>: with \<^verbatim>\<open>ensure_ascii=False\<close> only the backslash, the double quote
  and the control characters below U+0020 are escaped (\<^verbatim>\<open>ESCAPE_DCT\<close>); every other code
  point is written as it is.
\<close>

definition hex_digit :: "nat \<Rightarrow> nat" where
  "hex_digit d = (if d < 10 then 48 + d else 87 + d)"

definition escape_char :: "nat \<Rightarrow> pystr" where
  "escape_char c =
     (if c = 92 then [92, 92]
      else if c = 34 then [92, 34]
      else if c = 8 then [92, 98]
      else if c = 12 then [92, 102]
      else if c = 10 then [92, 110]
      else if c = 13 then [92, 114]
      else if c = 9 then [92, 116]
      else if c < 32 then [92, 117, 48, 48, hex_digit (c div 16), hex_digit (c mod 16)]
      else [c])"

definition encode_basestring :: "pystr \<Rightarrow> pystr" where
  "encode_basestring s = 34 # concat (map escape_char s) @ [34]"

text \<open>
  The encoder is a generator: \<^verbatim>\<open>json.dump\<close> writes each chunk as it is produced, and
  a value that is not serializable raises \<^verbatim>\<open>TypeError\<close> only when the generator reaches
  it. A run of the generator is the text produced so far and whether it ran to its end.
  \<open>then_emit a b\<close> runs \<open>b\<close> after \<open>a\<close>, unless \<open>a\<close> raised.
\<close>

definition then_emit :: "pystr \<times> bool \<Rightarrow> pystr \<times> bool \<Rightarrow> pystr \<times> bool" where
  "then_emit a b = (if snd a then (fst a @ fst b, snd b) else a)"

definition newline_indent :: "nat \<Rightarrow> pystr" where
  "newline_indent level = 10 # replicate (4 * level) 32"

text \<open>
  \<^verbatim>\<open>_iterencode\<close>, \<^verbatim>\<open>_iterencode_list\<close> and \<^verbatim>\<open>_iterencode_dict\<close> of \<^verbatim>\<open>json.encoder\<close>, with
  the item separator \<^verbatim>\<open>,\<close> and the key separator \<^verbatim>\<open>: \<close> that \<^verbatim>\<open>indent=4\<close> selects. The
  loops over the items of a list and of a dictionary are \<open>iterencode_items\<close> and
  \<open>iterencode_pairs\<close>.
\<close>

fun iterencode :: "nat \<Rightarrow> pyval \<Rightarrow> pystr \<times> bool"
  and iterencode_items :: "nat \<Rightarrow> pyval list \<Rightarrow> pystr \<times> bool"
  and iterencode_pairs :: "nat \<Rightarrow> (pystr \<times> pyval) list \<Rightarrow> pystr \<times> bool"
where
  "iterencode level PyNone = (str ''null'', True)"
| "iterencode level (PyBool b) = (if b then str ''true'' else str ''false'', True)"
| "iterencode level (PyInt i) = (int_repr i, True)"
| "iterencode level (PyStr s) = (encode_basestring s, True)"
| "iterencode level (PyList lst) =
     (if lst = [] then (str ''[]'', True)
      else then_emit (then_emit (str ''['' @ newline_indent (level + 1), True)
                        (iterencode_items (level + 1) lst))
             (newline_indent level @ str '']'', True))"
| "iterencode level (PyDict dct) =
     (if dct = [] then (str ''{}'', True)
      else then_emit (then_emit (str ''{'' @ newline_indent (level + 1), True)
                        (iterencode_pairs (level + 1) dct))
             (newline_indent level @ str ''}'', True))"
| "iterencode level (PyObject k) = ([], False)"
| "iterencode_items level [] = ([], True)"
| "iterencode_items level [v] = iterencode level v"
| "iterencode_items level (v # v' # vs) =
     then_emit (iterencode level v)
       (then_emit (44 # newline_indent level, True) (iterencode_items level (v' # vs)))"
| "iterencode_pairs level [] = ([], True)"
| "iterencode_pairs level [(k, v)] =
     then_emit (encode_basestring k @ str '': '', True) (iterencode level v)"
| "iterencode_pairs level ((k, v) # p # ps) =
     then_emit (then_emit (encode_basestring k @ str '': '', True) (iterencode level v))
       (then_emit (44 # newline_indent level, True) (iterencode_pairs level (p # ps)))"

text \<open>The text of a complete serialization, and whether a value has one.\<close>

definition json_dumps :: "pyval \<Rightarrow> pystr" where
  "json_dumps obj = fst (iterencode 0 obj)"

definition json_serializable :: "pyval \<Rightarrow> bool" where
  "json_serializable obj = snd (iterencode 0 obj)"

section \<open>\<^verbatim>\<open>json.load(f)\<close>\<close>

text \<open>
  The decoder of \<^verbatim>\<open>json.decoder\<close> and \<^verbatim>\<open>json.scanner\<close>. Every scanning function takes
  the text from the current position on and returns the value with the text left after
  it; \<open>None\<close> is \<^verbatim>\<open>JSONDecodeError\<close>.
\<close>

definition is_ws :: "nat \<Rightarrow> bool" where
  "is_ws c = (c = 32 \<or> c = 9 \<or> c = 10 \<or> c = 13)"

definition skip_ws :: "pystr \<Rightarrow> pystr" where
  "skip_ws s = dropWhile is_ws s"

definition is_digit :: "nat \<Rightarrow> bool" where
  "is_digit c = (48 \<le> c \<and> c \<le> 57)"

definition hex_val :: "nat \<Rightarrow> nat option" where
  "hex_val c =
     (if 48 \<le> c \<and> c \<le> 57 then Some (c - 48)
      else if 97 \<le> c \<and> c \<le> 102 then Some (c - 87)
      else if 65 \<le> c \<and> c \<le> 70 then Some (c - 55)
      else None)"

text \<open>The four hexadecimal digits after \<^verbatim>\<open>\u\<close>.\<close>

definition decode_uXXXX :: "pystr \<Rightarrow> (nat \<times> pystr) option" where
  "decode_uXXXX s =
     (case s of
        a # b # c # d # rest \<Rightarrow>
          (case (hex_val a, hex_val b, hex_val c, hex_val d) of
             (Some x, Some y, Some z, Some w) \<Rightarrow> Some (4096 * x + 256 * y + 16 * z + w, rest)
           | _ \<Rightarrow> None)
      | _ \<Rightarrow> None)"

text \<open>\<^verbatim>\<open>BACKSLASH\<close>: the one-character escapes.\<close>

definition BACKSLASH :: "nat \<Rightarrow> nat option" where
  "BACKSLASH esc =
     (if esc = 34 then Some 34
      else if esc = 92 then Some 92
      else if esc = 47 then Some 47
      else if esc = 98 then Some 8
      else if esc = 102 then Some 12
      else if esc = 110 then Some 10
      else if esc = 114 then Some 13
      else if esc = 116 then Some 9
      else None)"

definition cons_char :: "nat \<Rightarrow> (pystr \<times> pystr) option \<Rightarrow> (pystr \<times> pystr) option" where
  "cons_char c r = (case r of None \<Rightarrow> None | Some (t, rest) \<Rightarrow> Some (c # t, rest))"

lemma decode_uXXXX_shorter: "decode_uXXXX s = Some (u, r) \<Longrightarrow> length r < length s"
  by (auto simp: decode_uXXXX_def split: list.splits option.splits)

text \<open>
  \<^verbatim>\<open>scanstring\<close> (strict mode), from the character after the opening quote: a literal
  control character is an error, a backslash starts an escape, and a high surrogate
  escape followed by a low surrogate escape is one code point.
\<close>

function scanstring :: "pystr \<Rightarrow> (pystr \<times> pystr) option" where
  "scanstring s =
     (case s of
        [] \<Rightarrow> None
      | c # cs \<Rightarrow>
          if c = 34 then Some ([], cs)
          else if c = 92 then
            (case cs of
               [] \<Rightarrow> None
             | esc # cs' \<Rightarrow>
                 if esc \<noteq> 117 then
                   (case BACKSLASH esc of
                      None \<Rightarrow> None
                    | Some ch \<Rightarrow> cons_char ch (scanstring cs'))
                 else
                   (case decode_uXXXX cs' of
                      None \<Rightarrow> None
                    | Some (uni, r1) \<Rightarrow>
                        if 55296 \<le> uni \<and> uni \<le> 56319 \<and> take 2 r1 = [92, 117] then
                          (case decode_uXXXX (drop 2 r1) of
                             None \<Rightarrow> None
                           | Some (uni2, r2) \<Rightarrow>
                               if 56320 \<le> uni2 \<and> uni2 \<le> 57343
                               then cons_char (65536 + ((uni - 55296) * 1024 + (uni2 - 56320)))
                                      (scanstring r2)
                               else cons_char uni (scanstring r1))
                        else cons_char uni (scanstring r1)))
          else if c < 32 then None
          else cons_char c (scanstring cs))"
  by pat_completeness auto
termination
proof (relation "measure length")
  fix s c cs esc cs' x uni r1 x' uni2 r2
  assume "s = c # cs" "cs = esc # cs'" "decode_uXXXX cs' = Some x" "(uni, r1) = x"
    "decode_uXXXX (drop 2 r1) = Some x'" "(uni2, r2) = x'"
  then have "length r1 < length cs'" "length r2 < length (drop 2 r1)"
    by (auto dest: decode_uXXXX_shorter)
  then show "(r2, s) \<in> measure length"
    using \<open>s = c # cs\<close> \<open>cs = esc # cs'\<close> by simp
qed (auto dest!: decode_uXXXX_shorter)

text \<open>
  \<^verbatim>\<open>NUMBER_RE\<close>: \<^verbatim>\<open>(-?(?:0|[1-9]\d*))(\.\d+)?([eE][-+]?\d+)?\<close>. A match with a fraction or
  an exponent is a Python float, which this development does not model: such a text is
  outside the fragment of JSON handled here and is not accepted.
\<close>

definition digits_value :: "pystr \<Rightarrow> nat" where
  "digits_value ds = foldl (\<lambda>a d. 10 * a + (d - 48)) 0 ds"

definition has_frac :: "pystr \<Rightarrow> bool" where
  "has_frac r = (case r of c # d # _ \<Rightarrow> c = 46 \<and> is_digit d | _ \<Rightarrow> False)"

definition has_exp :: "pystr \<Rightarrow> bool" where
  "has_exp r =
     (case r of
        e # d # t \<Rightarrow>
          (e = 101 \<or> e = 69) \<and>
          (is_digit d \<or> ((d = 43 \<or> d = 45) \<and> (case t of d' # _ \<Rightarrow> is_digit d' | [] \<Rightarrow> False)))
      | _ \<Rightarrow> False)"

definition match_integer :: "pystr \<Rightarrow> (nat \<times> pystr) option" where
  "match_integer s =
     (case s of
        [] \<Rightarrow> None
      | d # t \<Rightarrow>
          if d = 48 then Some (0, t)
          else if is_digit d then Some (digits_value (d # takeWhile is_digit t), dropWhile is_digit t)
          else None)"

definition match_number :: "pystr \<Rightarrow> (pyval \<times> pystr) option" where
  "match_number s =
     (case (case s of c # t \<Rightarrow> if c = 45 then (True, t) else (False, s) | [] \<Rightarrow> (False, s)) of
        (neg, s1) \<Rightarrow>
          (case match_integer s1 of
             None \<Rightarrow> None
           | Some (n, rest) \<Rightarrow>
               if has_frac rest \<or> has_exp rest then None
               else Some (PyInt (if neg then - int n else int n), rest)))"

text \<open>\<^verbatim>\<open>dict(pairs)\<close>: a repeated key keeps its first position and takes the last value.\<close>

definition dict_of_pairs :: "(pystr \<times> pyval) list \<Rightarrow> (pystr \<times> pyval) list" where
  "dict_of_pairs pairs = foldl (\<lambda>d (k, v). AList.update k v d) [] pairs"

lemma skip_ws_length: "length (skip_ws s) \<le> length s"
  by (simp add: skip_ws_def length_dropWhile_le)

lemma scanstring_shorter: "scanstring s = Some (t, r) \<Longrightarrow> length r < length s"
proof (induction s arbitrary: t r rule: scanstring.induct)
  case (1 s)
  show ?case
  proof (cases s)
    case Nil
    with "1.prems" show ?thesis by simp
  next
    case (Cons c cs)
    note s = Cons
    show ?thesis
    proof (cases "c = 34")
      case True
      with "1.prems" s show ?thesis by simp
    next
      case c34: False
      show ?thesis
      proof (cases "c = 92")
        case False
        with c34 "1.prems" s have c: "\<not> c < 32" and e: "cons_char c (scanstring cs) = Some (t, r)"
          by (auto split: if_splits)
        have "length r < length cs"
          using e "1.IH"(5)[OF s c34 False c]
          by (auto simp: cons_char_def split: option.splits)
        with s show ?thesis by simp
      next
        case c92: True
        show ?thesis
        proof (cases cs)
          case Nil
          with "1.prems" s c92 show ?thesis by simp
        next
          case (Cons esc cs')
          note cs = Cons
          show ?thesis
          proof (cases "esc = 117")
            case False
            with "1.prems" s c92 cs obtain ch where ch: "BACKSLASH esc = Some ch"
              and e: "cons_char ch (scanstring cs') = Some (t, r)"
              by (auto split: option.splits)
            have "length r < length cs'"
              using e "1.IH"(1)[OF s c34 c92 cs False ch]
              by (auto simp: cons_char_def split: option.splits)
            with s cs show ?thesis by simp
          next
            case u: True
            with "1.prems" s c92 cs obtain uni r1 where d1: "decode_uXXXX cs' = Some (uni, r1)"
              by (auto split: option.splits)
            have l1: "length r1 < length cs'" using d1 by (rule decode_uXXXX_shorter)
            show ?thesis
            proof (cases "55296 \<le> uni \<and> uni \<le> 56319 \<and> take 2 r1 = [92, 117]")
              case False
              with "1.prems" s c92 cs u d1 c34
              have e: "cons_char uni (scanstring r1) = Some (t, r)"
                by (auto split: if_splits)
              have "length r < length r1"
                using e "1.IH"(4)[OF s c34 c92 cs _ d1 refl False] u
                by (auto simp: cons_char_def split: option.splits)
              with l1 s cs show ?thesis by simp
            next
              case hi: True
              with "1.prems" s c92 cs u d1 c34 obtain uni2 r2
                where d2: "decode_uXXXX (drop 2 r1) = Some (uni2, r2)"
                by (auto split: option.splits)
              have l2: "length r2 < length (drop 2 r1)" using d2 by (rule decode_uXXXX_shorter)
              show ?thesis
              proof (cases "56320 \<le> uni2 \<and> uni2 \<le> 57343")
                case True
                with "1.prems" s c92 cs u d1 c34 hi d2
                have e: "cons_char (65536 + ((uni - 55296) * 1024 + (uni2 - 56320)))
                           (scanstring r2) = Some (t, r)"
                  by (auto split: if_splits)
                have "length r < length r2"
                  using e "1.IH"(2)[OF s c34 c92 cs _ d1 refl hi d2 refl True] u
                  by (auto simp: cons_char_def split: option.splits)
                with l1 l2 s cs show ?thesis by simp
              next
                case False
                with "1.prems" s c92 cs u d1 c34 hi d2
                have e: "cons_char uni (scanstring r1) = Some (t, r)"
                  by (auto split: if_splits)
                have "length r < length r1"
                  using e "1.IH"(3)[OF s c34 c92 cs _ d1 refl hi d2 refl False] u
                  by (auto simp: cons_char_def split: option.splits)
                with l1 s cs show ?thesis by simp
              qed
            qed
          qed
        qed
      qed
    qed
  qed
qed

declare scanstring.simps [simp del]

lemma skip_ws_Cons_shorter: "skip_ws s = c # r \<Longrightarrow> length r < length s"
  using skip_ws_length [of s] by simp

text \<open>
  \<^verbatim>\<open>scan_once\<close> dispatches on the next character; \<^verbatim>\<open>JSONArray\<close> and \<^verbatim>\<open>JSONObject\<close>
  take the text after the opening bracket, and their \<^verbatim>\<open>while True\<close> loops are
  \<open>array_loop\<close> (from the start of an item) and \<open>object_loop\<close> (from the character
  after the opening quote of a key). The tests \<open>length rest < length s\<close> before the
  loops continue make the recursion visibly terminating; they never fail, and the loops
  satisfy the equations without them (\<open>array_loop_unguarded\<close>,
  \<open>object_loop_unguarded\<close> below).
\<close>

function scan_once :: "pystr \<Rightarrow> (pyval \<times> pystr) option"
  and JSONArray :: "pystr \<Rightarrow> (pyval \<times> pystr) option"
  and array_loop :: "pystr \<Rightarrow> (pyval list \<times> pystr) option"
  and JSONObject :: "pystr \<Rightarrow> (pyval \<times> pystr) option"
  and object_loop :: "pystr \<Rightarrow> ((pystr \<times> pyval) list \<times> pystr) option"
where
  "scan_once s =
     (case s of
        [] \<Rightarrow> None
      | nextchar # rest \<Rightarrow>
          if nextchar = 34 then
            (case scanstring rest of None \<Rightarrow> None | Some (t, r) \<Rightarrow> Some (PyStr t, r))
          else if nextchar = 123 then JSONObject rest
          else if nextchar = 91 then JSONArray rest
          else if nextchar = 110 \<and> take 4 s = str ''null'' then Some (PyNone, drop 4 s)
          else if nextchar = 116 \<and> take 4 s = str ''true'' then Some (PyBool True, drop 4 s)
          else if nextchar = 102 \<and> take 5 s = str ''false'' then Some (PyBool False, drop 5 s)
          else match_number s)"
| "JSONArray s =
     (case skip_ws s of
        [] \<Rightarrow> None
      | nextchar # rest \<Rightarrow>
          if nextchar = 93 then Some (PyList [], rest)
          else (case array_loop (nextchar # rest) of
                  None \<Rightarrow> None
                | Some (values, r) \<Rightarrow> Some (PyList values, r)))"
| "array_loop s =
     (case scan_once s of
        None \<Rightarrow> None
      | Some (v, r) \<Rightarrow>
          (case skip_ws r of
             [] \<Rightarrow> None
           | nextchar # rest \<Rightarrow>
               if nextchar = 93 then Some ([v], rest)
               else if nextchar \<noteq> 44 then None
               else if length rest < length s then
                 (case array_loop (skip_ws rest) of
                    None \<Rightarrow> None
                  | Some (values, r') \<Rightarrow> Some (v # values, r'))
               else None))"
| "JSONObject s =
     (case skip_ws s of
        [] \<Rightarrow> None
      | nextchar # rest \<Rightarrow>
          if nextchar = 125 then Some (PyDict [], rest)
          else if nextchar \<noteq> 34 then None
          else (case object_loop rest of
                  None \<Rightarrow> None
                | Some (pairs, r) \<Rightarrow> Some (PyDict (dict_of_pairs pairs), r)))"
| "object_loop s =
     (case scanstring s of
        None \<Rightarrow> None
      | Some (key, r) \<Rightarrow>
          (case skip_ws r of
             [] \<Rightarrow> None
           | colon # r1 \<Rightarrow>
               if colon \<noteq> 58 then None
               else
                 (case scan_once (skip_ws r1) of
                    None \<Rightarrow> None
                  | Some (v, r2) \<Rightarrow>
                      (case skip_ws r2 of
                         [] \<Rightarrow> None
                       | nextchar # r3 \<Rightarrow>
                           if nextchar = 125 then Some ([(key, v)], r3)
                           else if nextchar \<noteq> 44 then None
                           else
                             (case skip_ws r3 of
                                [] \<Rightarrow> None
                              | quote # r4 \<Rightarrow>
                                  if quote \<noteq> 34 then None
                                  else if length r4 < length s then
                                    (case object_loop r4 of
                                       None \<Rightarrow> None
                                     | Some (pairs, r') \<Rightarrow> Some ((key, v) # pairs, r'))
                                  else None)))))"
  by pat_completeness auto
termination
  apply (relation "measure (\<lambda>x. case x of
            Inl (Inl s) \<Rightarrow> 3 * length s
          | Inl (Inr s) \<Rightarrow> 3 * length s + 2
          | Inr (Inl s) \<Rightarrow> 3 * length s + 1
          | Inr (Inr (Inl s)) \<Rightarrow> 3 * length s + 2
          | Inr (Inr (Inr s)) \<Rightarrow> 3 * length s + 1)")
         apply (auto dest!: skip_ws_Cons_shorter scanstring_shorter)
  subgoal for s a b x22 using skip_ws_length [of x22] by simp
  subgoal for s b x22 using skip_ws_length [of x22] by simp
  done

declare scan_once.simps [simp del] JSONArray.simps [simp del] array_loop.simps [simp del]
  JSONObject.simps [simp del] object_loop.simps [simp del]

text \<open>
  \<^verbatim>\<open>json.loads\<close> (\<^verbatim>\<open>JSONDecoder.decode\<close>): leading whitespace, one value, trailing
  whitespace, and nothing else.
\<close>

definition json_loads :: "pystr \<Rightarrow> pyval option" where
  "json_loads s =
     (case scan_once (skip_ws s) of
        None \<Rightarrow> None
      | Some (obj, r) \<Rightarrow> if skip_ws r = [] then Some obj else None)"

section \<open>The world of the script\<close>

text \<open>
  The state the script reads and changes: the files (a map from file names to their
  text), the attribute \<^verbatim>\<open>oi.messages\<close> of the interpreter object, and the effects on the
  console and on files in the order they happened. Files hold their decoded text;
  writing to the console and opening, reading and writing a file are taken to succeed.
\<close>

datatype fmode = ModeR | ModeW | ModeA

datatype effect =
    Printed pystr
  | PrintedExc pystr
  | Prompted pystr
  | Opened string fmode
  | ReadAll string
  | Written string pystr
  | Closed string

record world =
  fs :: "string \<Rightarrow> pystr option"
  messages :: pyval
  effects :: "effect list"

text \<open>
  The exceptions that leave the functions of the script: \<^verbatim>\<open>json.JSONDecodeError\<close>
  from \<^verbatim>\<open>json.load\<close>, \<^verbatim>\<open>TypeError\<close> from \<^verbatim>\<open>len\<close> and from \<^verbatim>\<open>json.dump\<close>, and whatever
  \<^verbatim>\<open>oi.chat()\<close> raised.
\<close>

datatype exc = JSONDecodeError | TypeError | FromChat bool pystr

text \<open>
  How \<^verbatim>\<open>oi.chat()\<close> ends: it returns, or it raises an exception, of which the wrapper
  sees whether its class derives from \<^verbatim>\<open>Exception\<close> (\<^verbatim>\<open>KeyboardInterrupt\<close> and
  \<^verbatim>\<open>SystemExit\<close> do not) and the traceback that \<^verbatim>\<open>traceback.print_exc\<close> formats. The chat
  loop itself is a parameter of the wrapper: any function from the world to an exit and
  a new world.
\<close>

datatype chat_exit = Returns | Raises bool pystr

type_synonym chat_loop = "world \<Rightarrow> chat_exit \<times> world"

definition emit :: "effect \<Rightarrow> world \<Rightarrow> world" where
  "emit e w = w\<lparr>effects := effects w @ [e]\<rparr>"

text \<open>\<^verbatim>\<open>print(line)\<close>, \<^verbatim>\<open>traceback.print_exc()\<close> and \<^verbatim>\<open>input(prompt)\<close>.\<close>

definition py_print :: "pystr \<Rightarrow> world \<Rightarrow> world" where
  "py_print line w = emit (Printed line) w"

definition print_exc :: "pystr \<Rightarrow> world \<Rightarrow> world" where
  "print_exc tb w = emit (PrintedExc tb) w"

definition py_input :: "pystr \<Rightarrow> world \<Rightarrow> world" where
  "py_input prompt w = emit (Prompted prompt) w"

text \<open>
  \<^verbatim>\<open>open(path, mode, encoding="utf-8")\<close>: mode \<^verbatim>\<open>w\<close> creates the file or truncates it
  at once, mode \<^verbatim>\<open>a\<close> creates it when it is missing and keeps its text otherwise.
  The script opens a file in mode \<^verbatim>\<open>r\<close> only after \<^verbatim>\<open>os.path.exists\<close> said it is there.
\<close>

definition file_text :: "world \<Rightarrow> string \<Rightarrow> pystr" where
  "file_text w path = (case fs w path of None \<Rightarrow> [] | Some text \<Rightarrow> text)"

definition py_open :: "string \<Rightarrow> fmode \<Rightarrow> world \<Rightarrow> world" where
  "py_open path mode w =
     emit (Opened path mode)
       (case mode of
          ModeR \<Rightarrow> w
        | ModeW \<Rightarrow> w\<lparr>fs := (fs w)(path \<mapsto> [])\<rparr>
        | ModeA \<Rightarrow> w\<lparr>fs := (fs w)(path \<mapsto> file_text w path)\<rparr>)"

definition file_write :: "string \<Rightarrow> pystr \<Rightarrow> world \<Rightarrow> world" where
  "file_write path text w =
     emit (Written path text) (w\<lparr>fs := (fs w)(path \<mapsto> file_text w path @ text)\<rparr>)"

definition file_close :: "string \<Rightarrow> world \<Rightarrow> world" where
  "file_close path w = emit (Closed path) w"

text \<open>
  \<^verbatim>\<open>json.load(f)\<close> reads the whole file and decodes it. \<^verbatim>\<open>json.dump(obj, f, indent=4,
  ensure_ascii=False)\<close> writes what the encoder produces, up to the point where it
  raises, if it does.
\<close>

definition json_load :: "string \<Rightarrow> world \<Rightarrow> (exc + pyval) \<times> world" where
  "json_load path w =
     (case json_loads (file_text w path) of
        None \<Rightarrow> (Inl JSONDecodeError, emit (ReadAll path) w)
      | Some obj \<Rightarrow> (Inr obj, emit (ReadAll path) w))"

definition json_dump :: "pyval \<Rightarrow> string \<Rightarrow> world \<Rightarrow> exc option \<times> world" where
  "json_dump obj path w =
     (case iterencode 0 obj of
        (text, complete) \<Rightarrow>
          (if complete then None else Some TypeError, file_write path text w))"

section \<open>The script\<close>

definition DB_PATH :: string where
  "DB_PATH = ''ai_memory.json''"

text \<open>
  The lines the script prints are Russian; they are given by their code points. In the
  order of the source: the two halves of the line reporting how many messages were
  loaded, the line confirming the save, the line announcing the start, the title of the
  error banner, the notice that the details are in \<^verbatim>\<open>error_log.txt\<close>, and the prompt of
  \<^verbatim>\<open>input\<close>.
\<close>

definition MSG_LOADED_BEFORE :: pystr where
  "MSG_LOADED_BEFORE =
     [45, 45, 45, 32, 1050, 1086, 1085, 1090, 1077, 1082, 1089, 1090, 32, 1079, 1072, 1075,
      1088, 1091, 1078, 1077, 1085, 32, 40]"

definition MSG_LOADED_AFTER :: pystr where
  "MSG_LOADED_AFTER =
     [32, 1089, 1086, 1086, 1073, 1097, 1077, 1085, 1080, 1081, 41, 32, 45, 45, 45]"

definition MSG_SAVED :: pystr where
  "MSG_SAVED =
     [45, 45, 45, 32, 1050, 1086, 1085, 1090, 1077, 1082, 1089, 1090, 32, 1089, 1086, 1093,
      1088, 1072, 1085, 1077, 1085, 32, 1074, 32, 97, 105, 95, 109, 101, 109, 111, 114, 121,
      46, 106, 115, 111, 110, 32, 45, 45, 45]"

definition MSG_STARTED :: pystr where
  "MSG_STARTED =
     [1041, 1086, 1090, 32, 1079, 1072, 1087, 1091, 1097, 1077, 1085, 46, 32, 1042, 1074,
      1077, 1076, 1080, 32, 1082, 1086, 1084, 1072, 1085, 1076, 1091, 46, 46, 46]"

definition MSG_ERROR_TITLE :: pystr where
  "MSG_ERROR_TITLE =
     [1055, 1056, 1054, 1048, 1047, 1054, 1064, 1051, 1040, 32, 1054, 1064, 1048, 1041, 1050,
      1040, 32, 1055, 1056, 1048, 32, 1056, 1040, 1041, 1054, 1058, 1045, 32, 1063, 1040,
      1058, 1040, 58]"

definition MSG_DETAILS_SAVED :: pystr where
  "MSG_DETAILS_SAVED =
     [1044, 1077, 1090, 1072, 1083, 1080, 32, 1086, 1096, 1080, 1073, 1082, 1080, 32, 1089,
      1086, 1093, 1088, 1072, 1085, 1077, 1085, 1099, 32, 1074, 32, 1092, 1072, 1081, 1083,
      32, 101, 114, 114, 111, 114, 95, 108, 111, 103, 46, 116, 120, 116]"

definition MSG_PRESS_ENTER :: pystr where
  "MSG_PRESS_ENTER =
     [1053, 1072, 1078, 1084, 1080, 32, 69, 110, 116, 101, 114, 44, 32, 1095, 1090, 1086,
      1073, 1099, 32, 1079, 1072, 1082, 1088, 1099, 1090, 1100, 46, 46, 46]"

text \<open>\<^verbatim>\<open>"=" * 50\<close> and the marker written before each traceback in the crash log.\<close>

definition RULE :: pystr where
  "RULE = replicate 50 61"

definition NEW_CRASH :: pystr where
  "NEW_CRASH = 10 # str ''--- NEW CRASH ---'' @ [10]"

text \<open>
  \<^verbatim>\<open>load_memory\<close>. The file is opened only when \<^verbatim>\<open>os.path.exists(DB_PATH)\<close>; the
  assignment to \<^verbatim>\<open>oi.messages\<close> and the \<^verbatim>\<open>print\<close> are inside the \<^verbatim>\<open>with\<close> block, so the
  file is closed after them, also when \<^verbatim>\<open>json.load\<close> or \<^verbatim>\<open>len\<close> raises.
\<close>

definition load_memory :: "world \<Rightarrow> exc option \<times> world" where
  "load_memory w =
     (if fs w DB_PATH \<noteq> None then
        (case json_load DB_PATH (py_open DB_PATH ModeR w) of
           (Inl e, w1) \<Rightarrow> (Some e, file_close DB_PATH w1)
         | (Inr obj, w1) \<Rightarrow>
             (let w2 = w1\<lparr>messages := obj\<rparr> in
              case py_len (messages w2) of
                None \<Rightarrow> (Some TypeError, file_close DB_PATH w2)
              | Some n \<Rightarrow>
                  (None,
                   file_close DB_PATH
                     (py_print (MSG_LOADED_BEFORE @ nat_repr n @ MSG_LOADED_AFTER) w2))))
      else (None, w))"

text \<open>
  \<^verbatim>\<open>save_memory\<close>. The \<^verbatim>\<open>with\<close> block closes the file whether \<^verbatim>\<open>json.dump\<close> returns or
  raises; the confirmation is printed only when it returns.
\<close>

definition save_memory :: "world \<Rightarrow> exc option \<times> world" where
  "save_memory w =
     (case json_dump (messages w) DB_PATH (py_open DB_PATH ModeW w) of
        (Some e, w1) \<Rightarrow> (Some e, file_close DB_PATH w1)
      | (None, w1) \<Rightarrow> (None, py_print MSG_SAVED (file_close DB_PATH w1)))"

text \<open>The body of the \<^verbatim>\<open>except Exception\<close> clause of \<^verbatim>\<open>start_with_logging\<close>.\<close>

definition except_block :: "pystr \<Rightarrow> world \<Rightarrow> world" where
  "except_block tb w =
     (let w1 = py_print (10 # RULE) w;
          w2 = py_print MSG_ERROR_TITLE w1;
          w3 = py_print RULE w2;
          w4 = print_exc tb w3;
          w5 = py_open ''error_log.txt'' ModeA w4;
          w6 = file_write ''error_log.txt'' NEW_CRASH w5;
          w7 = file_write ''error_log.txt'' tb w6;
          w8 = file_close ''error_log.txt'' w7;
          w9 = py_print RULE w8;
          w10 = py_print MSG_DETAILS_SAVED w9
      in py_input MSG_PRESS_ENTER w10)"

text \<open>
  \<^verbatim>\<open>start_with_logging\<close>. \<^verbatim>\<open>load_memory()\<close> is called before the \<^verbatim>\<open>try\<close>, so what it
  raises leaves the function at once. Inside the \<^verbatim>\<open>try\<close>, an exception of a class
  derived from \<^verbatim>\<open>Exception\<close> is handled by the \<^verbatim>\<open>except\<close> clause and the function then
  returns; any other exception is raised again after the \<^verbatim>\<open>finally\<close> clause. The
  \<^verbatim>\<open>finally\<close> clause runs \<^verbatim>\<open>save_memory()\<close> in every case, and what \<^verbatim>\<open>save_memory\<close>
  raises replaces the exception in flight.
\<close>

definition start_with_logging :: "chat_loop \<Rightarrow> world \<Rightarrow> exc option \<times> world" where
  "start_with_logging chat w =
     (case load_memory w of
        (Some e, w1) \<Rightarrow> (Some e, w1)
      | (None, w1) \<Rightarrow>
          (case chat (py_print MSG_STARTED w1) of
             (Returns, w2) \<Rightarrow> save_memory w2
           | (Raises is_Exception tb, w2) \<Rightarrow>
               if is_Exception then save_memory (except_block tb w2)
               else (case save_memory w2 of
                       (Some e, w3) \<Rightarrow> (Some e, w3)
                     | (None, w3) \<Rightarrow> (Some (FromChat is_Exception tb), w3))))"

section \<open>JSON values\<close>


text \<open>
  Two notions about text: a text after which a number ends (it does not go on with a
  digit, a fraction or an exponent), and the characters with which the text of a value
  can start.
\<close>

definition delimited :: "pystr \<Rightarrow> bool" where
  "delimited r = (case r of [] \<Rightarrow> True
                  | c # _ \<Rightarrow> \<not> is_digit c \<and> c \<noteq> 46 \<and> c \<noteq> 101 \<and> c \<noteq> 69)"


section \<open>Example runs\<close>

text \<open>
  A message list of one record, the world of a first run (no files, the default empty
  message list), a chat loop that crashes with an ordinary exception after putting the
  record in the message list, and one that is interrupted from the keyboard.
\<close>

definition sample_messages :: pyval where
  "sample_messages =
     PyList [PyDict [(str ''role'', PyStr (str ''user'')), (str ''content'', PyStr (str ''hi''))]]"

definition first_run :: world where
  "first_run = \<lparr>fs = Map.empty, messages = PyList [], effects = []\<rparr>"

definition crashing_chat :: chat_loop where
  "crashing_chat w = (Raises True (str ''ValueError: boom''), w\<lparr>messages := sample_messages\<rparr>)"

definition interrupted_chat :: chat_loop where
  "interrupted_chat w = (Raises False (str ''KeyboardInterrupt''), w\<lparr>messages := sample_messages\<rparr>)"


section \<open>What the three functions do\<close>

text \<open>The functions of the script, unfolded to their effect on the world.\<close>

lemma save_memory_eq:
  "save_memory w =
     (let text = fst (iterencode 0 (messages w));
          w' = w\<lparr>fs := (fs w)(DB_PATH \<mapsto> text),
                 effects := effects w @ [Opened DB_PATH ModeW, Written DB_PATH text, Closed DB_PATH]\<rparr>
      in if snd (iterencode 0 (messages w)) then (None, w'\<lparr>effects := effects w' @ [Printed MSG_SAVED]\<rparr>)
         else (Some TypeError, w'))"
  by (simp add: save_memory_def json_dump_def py_open_def file_write_def file_close_def
      py_print_def emit_def file_text_def Let_def split: prod.splits)

lemma except_block_eq:
  "except_block tb w =
     w\<lparr>fs := (fs w)(''error_log.txt'' \<mapsto> file_text w ''error_log.txt'' @ NEW_CRASH @ tb),
       effects := effects w @
         [Printed (10 # RULE), Printed MSG_ERROR_TITLE, Printed RULE, PrintedExc tb,
          Opened ''error_log.txt'' ModeA, Written ''error_log.txt'' NEW_CRASH,
          Written ''error_log.txt'' tb, Closed ''error_log.txt'',
          Printed RULE, Printed MSG_DETAILS_SAVED, Prompted MSG_PRESS_ENTER]\<rparr>"
  by (simp add: except_block_def py_open_def file_write_def file_close_def py_print_def
      print_exc_def py_input_def emit_def file_text_def Let_def)

lemma load_memory_eq:
  "load_memory w =
     (case fs w DB_PATH of
        None \<Rightarrow> (None, w)
      | Some text \<Rightarrow>
          (case json_loads text of
             None \<Rightarrow>
               (Some JSONDecodeError,
                w\<lparr>effects := effects w @ [Opened DB_PATH ModeR, ReadAll DB_PATH, Closed DB_PATH]\<rparr>)
           | Some obj \<Rightarrow>
               (case py_len obj of
                  None \<Rightarrow>
                    (Some TypeError,
                     w\<lparr>messages := obj,
                       effects := effects w @ [Opened DB_PATH ModeR, ReadAll DB_PATH, Closed DB_PATH]\<rparr>)
                | Some n \<Rightarrow>
                    (None,
                     w\<lparr>messages := obj,
                       effects := effects w @
                         [Opened DB_PATH ModeR, ReadAll DB_PATH,
                          Printed (MSG_LOADED_BEFORE @ nat_repr n @ MSG_LOADED_AFTER),
                          Closed DB_PATH]\<rparr>))))"
  by (simp add: load_memory_def json_load_def py_open_def file_close_def py_print_def emit_def
      file_text_def Let_def split: option.splits)

lemma DB_PATH_not_log [simp]: "DB_PATH \<noteq> ''error_log.txt''" "''error_log.txt'' \<noteq> DB_PATH"
  by (simp_all add: DB_PATH_def)

lemma load_memory_keeps_files: "fs (snd (load_memory w)) = fs w"
  by (simp add: load_memory_eq split: option.splits)

lemma load_memory_malformed:
  "fs w DB_PATH = Some text \<Longrightarrow> json_loads text = None \<Longrightarrow>
   load_memory w =
     (Some JSONDecodeError,
      w\<lparr>effects := effects w @ [Opened DB_PATH ModeR, ReadAll DB_PATH, Closed DB_PATH]\<rparr>)"
  by (simp add: load_memory_eq)

lemma sample_serializable: "json_serializable sample_messages"
  by (simp add: json_serializable_def sample_messages_def then_emit_def)



lemma save_memory_file:
  "fs (snd (save_memory w)) = (fs w)(DB_PATH \<mapsto> fst (iterencode 0 (messages w)))"
  by (simp add: save_memory_eq Let_def)

lemma save_memory_effects:
  "effects (snd (save_memory w)) =
     effects w @
       [Opened DB_PATH ModeW, Written DB_PATH (fst (iterencode 0 (messages w))), Closed DB_PATH] @
       (if snd (iterencode 0 (messages w)) then [Printed MSG_SAVED] else [])"
  by (simp add: save_memory_eq Let_def)



lemma start_with_logging_returns:
  "load_memory w = (None, w1) \<Longrightarrow> chat (py_print MSG_STARTED w1) = (Returns, w2) \<Longrightarrow>
   start_with_logging chat w = save_memory w2"
  by (simp add: start_with_logging_def)

lemma start_with_logging_caught:
  "load_memory w = (None, w1) \<Longrightarrow> chat (py_print MSG_STARTED w1) = (Raises True tb, w2) \<Longrightarrow>
   start_with_logging chat w = save_memory (except_block tb w2)"
  by (simp add: start_with_logging_def)

lemma start_with_logging_uncaught:
  "load_memory w = (None, w1) \<Longrightarrow> chat (py_print MSG_STARTED w1) = (Raises False tb, w2) \<Longrightarrow>
   start_with_logging chat w =
     (if snd (iterencode 0 (messages w2)) then Some (FromChat False tb) else Some TypeError,
      snd (save_memory w2))"
  by (cases "save_memory w2")
     (auto simp: start_with_logging_def save_memory_eq Let_def split: if_splits)

lemma first_run_loads: "load_memory first_run = (None, first_run)"
  by (simp add: load_memory_eq first_run_def)

lemma crashing_chat_first_run:
  "crashing_chat (py_print MSG_STARTED first_run) =
     (Raises True (str ''ValueError: boom''),
      \<lparr>fs = Map.empty, messages = sample_messages, effects = [Printed MSG_STARTED]\<rparr>)"
  by (simp add: crashing_chat_def py_print_def emit_def first_run_def)

lemma interrupted_chat_first_run:
  "interrupted_chat (py_print MSG_STARTED first_run) =
     (Raises False (str ''KeyboardInterrupt''),
      \<lparr>fs = Map.empty, messages = sample_messages, effects = [Printed MSG_STARTED]\<rparr>)"
  by (simp add: interrupted_chat_def py_print_def emit_def first_run_def)

lemma sample_complete: "snd (iterencode 0 sample_messages)"
  using sample_serializable by (simp add: json_serializable_def)

section \<open>Decoding what the encoder wrote\<close>

text \<open>
  The decoder reads back what the encoder writes: integers, strings, and by induction
  along the encoder the nested lists and dictionaries with their indentation.
\<close>

lemma then_emit_snd [simp]: "snd (then_emit a b) = (snd a \<and> snd b)"
  by (simp add: then_emit_def)

lemma then_emit_fst [simp]: "snd a \<Longrightarrow> fst (then_emit a b) = fst a @ fst b"
  by (simp add: then_emit_def)










lemma delimited_takeWhile [simp]: "delimited r \<Longrightarrow> takeWhile is_digit r = []"
  by (cases r) (auto simp: delimited_def)

lemma delimited_dropWhile [simp]: "delimited r \<Longrightarrow> dropWhile is_digit r = r"
  by (cases r) (auto simp: delimited_def)










lemma skip_ws_Cons [simp]: "\<not> is_ws c \<Longrightarrow> skip_ws (c # r) = c # r"
  by (simp add: skip_ws_def)

lemma skip_ws_append [simp]: "\<forall>c \<in> set ws. is_ws c \<Longrightarrow> skip_ws (ws @ r) = skip_ws r"
  by (simp add: skip_ws_def dropWhile_append)

lemma newline_indent_ws: "\<forall>c \<in> set (newline_indent level). is_ws c"
  by (simp add: newline_indent_def is_ws_def)

lemma skip_ws_newline_indent [simp]: "skip_ws (newline_indent level @ r) = skip_ws r"
  by (simp add: newline_indent_ws)

lemma not_ws_simps [simp]:
  "\<not> is_ws 93" "\<not> is_ws 125" "\<not> is_ws 44" "\<not> is_ws 58" "\<not> is_ws 34" "is_ws 32"
  by (simp_all add: is_ws_def)



















lemma skip_ws_space [simp]: "skip_ws (32 # r) = skip_ws r"
  by (simp add: skip_ws_def)



lemma delimited_simps [simp]:
  "delimited (44 # r)" "delimited (93 # r)" "delimited (125 # r)" "delimited []"
  by (simp_all add: delimited_def is_digit_def)










text \<open>
  Every scanning function consumes text, so the tests that guard the two loops of the
  decoder never fail: the loops satisfy the equations without them.
\<close>

lemma match_number_shorter: "match_number s = Some (v, r) \<Longrightarrow> length r < length s"
proof -
  have d: "length (dropWhile is_digit t) < Suc (length t)"
    "length (dropWhile is_digit t) < Suc (Suc (length t))" for t
    using length_dropWhile_le [of is_digit t] by simp_all
  assume "match_number s = Some (v, r)"
  then show ?thesis
    by (auto simp: match_number_def match_integer_def d
        split: list.splits option.splits if_splits prod.splits)
qed

lemma scan_shorter:
  "scan_once s = Some (v, r) \<Longrightarrow> length r < length s"
  "JSONArray s = Some (v, r) \<Longrightarrow> length r < length s"
  "array_loop s = Some (vs, r) \<Longrightarrow> length r < length s"
  "JSONObject s = Some (v, r) \<Longrightarrow> length r < length s"
  "object_loop s = Some (ps, r) \<Longrightarrow> length r < length s"
proof (induction s and s and s and s and s arbitrary: v r and v r and vs r and v r and ps r
    rule: scan_once_JSONArray_array_loop_JSONObject_object_loop.induct)
  case (1 s)
  from "1.prems" obtain c rest where s: "s = c # rest"
    by (subst (asm) scan_once.simps) (auto split: list.splits)
  consider "c = 34" | "c \<noteq> 34" "c = 123" | "c \<noteq> 34" "c \<noteq> 123" "c = 91"
    | "c \<noteq> 34" "c \<noteq> 123" "c \<noteq> 91"
    by blast
  then show ?case
  proof cases
    case 1
    with "1.prems" s show ?thesis
      by (subst (asm) scan_once.simps)
         (auto split: option.splits dest!: scanstring_shorter)
  next
    case 2
    with "1.prems" s have "JSONObject rest = Some (v, r)"
      by (subst (asm) scan_once.simps) simp
    from "1.IH"(1) [OF s 2 this] s show ?thesis by simp
  next
    case 3
    with "1.prems" s have "JSONArray rest = Some (v, r)"
      by (subst (asm) scan_once.simps) simp
    from "1.IH"(2) [OF s 3 this] s show ?thesis by simp
  next
    case 4
    with "1.prems" s show ?thesis
      by (subst (asm) scan_once.simps)
         (auto split: if_splits dest!: match_number_shorter)
  qed
next
  case (2 s)
  from "2.prems" skip_ws_length [of s] show ?case
    by (subst (asm) JSONArray.simps)
       (auto split: list.splits if_splits option.splits dest!: "2.IH")
next
  case (3 s)
  from "3.prems" obtain a b where ab: "scan_once s = Some (a, b)"
    by (subst (asm) array_loop.simps) (auto split: option.splits)
  have l: "length b < length s" using "3.IH"(1) [OF ab] .
  from "3.prems" ab obtain c rest where c: "skip_ws b = c # rest"
    by (subst (asm) array_loop.simps) (auto split: list.splits)
  have lr: "length rest < length b" using c by (rule skip_ws_Cons_shorter)
  show ?case
  proof (cases "c = 93")
    case True
    with "3.prems" ab c have "r = rest"
      by (subst (asm) array_loop.simps) simp
    with l lr show ?thesis by simp
  next
    case False
    with "3.prems" ab c obtain aa where c44: "c = 44" and g: "length rest < length s"
      and loop: "array_loop (skip_ws rest) = Some (aa, r)"
      by (subst (asm) array_loop.simps) (auto split: if_splits option.splits)
    have "length r < length (skip_ws rest)"
      using "3.IH"(2) [OF ab refl c False _ g loop] c44 by simp
    with skip_ws_length [of rest] g show ?thesis by simp
  qed
next
  case (4 s)
  from "4.prems" skip_ws_length [of s] show ?case
    by (subst (asm) JSONObject.simps)
       (auto split: list.splits if_splits option.splits dest!: "4.IH")
next
  case (5 s)
  from "5.prems" obtain key y where ky: "scanstring s = Some (key, y)"
    by (subst (asm) object_loop.simps) (auto split: option.splits)
  from "5.prems" ky obtain r1 where r1: "skip_ws y = 58 # r1"
    by (subst (asm) object_loop.simps) (auto split: list.splits if_splits)
  from "5.prems" ky r1 obtain a b where ab: "scan_once (skip_ws r1) = Some (a, b)"
    by (subst (asm) object_loop.simps) (auto split: option.splits)
  have l: "length b < length s"
    using "5.IH"(1) [OF ky refl r1 _ ab] scanstring_shorter [OF ky] skip_ws_Cons_shorter [OF r1]
      skip_ws_length [of r1]
    by simp
  from "5.prems" ky r1 ab obtain c r3 where c: "skip_ws b = c # r3"
    by (subst (asm) object_loop.simps) (auto split: list.splits)
  have l3: "length r3 < length b" using c by (rule skip_ws_Cons_shorter)
  show ?case
  proof (cases "c = 125")
    case True
    with "5.prems" ky r1 ab c have "r = r3"
      by (subst (asm) object_loop.simps) simp
    with l l3 show ?thesis by simp
  next
    case False
    with "5.prems" ky r1 ab c obtain r4 pairs where c44: "c = 44"
      and q: "skip_ws r3 = 34 # r4" and g: "length r4 < length s"
      and loop: "object_loop r4 = Some (pairs, r)"
      by (subst (asm) object_loop.simps) (auto split: if_splits option.splits list.splits)
    have "length r < length r4"
      using "5.IH"(2) [OF ky refl r1 _ ab refl c False _ q _ g loop] c44 by simp
    with g show ?thesis by simp
  qed
qed

lemma array_loop_unguarded:
  "array_loop s =
     (case scan_once s of
        None \<Rightarrow> None
      | Some (v, r) \<Rightarrow>
          (case skip_ws r of
             [] \<Rightarrow> None
           | nextchar # rest \<Rightarrow>
               if nextchar = 93 then Some ([v], rest)
               else if nextchar \<noteq> 44 then None
               else (case array_loop (skip_ws rest) of
                       None \<Rightarrow> None
                     | Some (values, r') \<Rightarrow> Some (v # values, r'))))"
proof (cases "scan_once s")
  case None
  then show ?thesis by (subst array_loop.simps) simp
next
  case (Some x)
  obtain v r where x: "x = (v, r)" by (cases x)
  have l: "length r < length s" using scan_shorter(1) [of s v r] Some x by simp
  show ?thesis
  proof (cases "skip_ws r")
    case Nil
    with Some x show ?thesis by (subst array_loop.simps) simp
  next
    case (Cons c rest)
    have "length rest < length s" using skip_ws_Cons_shorter [OF Cons] l by simp
    with Some x Cons show ?thesis by (subst array_loop.simps) simp
  qed
qed

lemma object_loop_unguarded:
  "object_loop s =
     (case scanstring s of
        None \<Rightarrow> None
      | Some (key, r) \<Rightarrow>
          (case skip_ws r of
             [] \<Rightarrow> None
           | colon # r1 \<Rightarrow>
               if colon \<noteq> 58 then None
               else
                 (case scan_once (skip_ws r1) of
                    None \<Rightarrow> None
                  | Some (v, r2) \<Rightarrow>
                      (case skip_ws r2 of
                         [] \<Rightarrow> None
                       | nextchar # r3 \<Rightarrow>
                           if nextchar = 125 then Some ([(key, v)], r3)
                           else if nextchar \<noteq> 44 then None
                           else
                             (case skip_ws r3 of
                                [] \<Rightarrow> None
                              | quote # r4 \<Rightarrow>
                                  if quote \<noteq> 34 then None
                                  else (case object_loop r4 of
                                          None \<Rightarrow> None
                                        | Some (pairs, r') \<Rightarrow> Some ((key, v) # pairs, r')))))))"
proof -
  have g: "length r4 < length s"
    if "scanstring s = Some (key, r)" "skip_ws r = colon # r1"
      "scan_once (skip_ws r1) = Some (v, r2)" "skip_ws r2 = nextchar # r3"
      "skip_ws r3 = quote # r4"
    for key r colon r1 v r2 nextchar r3 quote r4
    using scanstring_shorter [OF that(1)] skip_ws_Cons_shorter [OF that(2)]
      skip_ws_length [of r1] scan_shorter(1) [OF that(3)] skip_ws_Cons_shorter [OF that(4)]
      skip_ws_Cons_shorter [OF that(5)]
    by simp
  show ?thesis
    by (subst object_loop.simps)
       (auto split: option.splits list.splits dest: g)
qed

section \<open>Loading\<close>

text \<open>
  C5. When the memory file does not exist, \<^verbatim>\<open>load_memory\<close> returns without raising
  and leaves the world as it was: \<^verbatim>\<open>oi.messages\<close> keeps its prior value, no file is
  opened or read, nothing is printed.
\<close>

theorem load_memory_missing_file:
  "fs w DB_PATH = None \<Longrightarrow> load_memory w = (None, w)"
  by (simp add: load_memory_eq)

theorem load_memory_missing_file_witness:
  "fs first_run DB_PATH = None \<and> load_memory first_run = (None, first_run)"
  using load_memory_missing_file [of first_run] by (simp add: first_run_def)



text \<open>
  C4. An exception raised while loading (\<open>load_memory_malformed\<close>: malformed JSON in
  the memory file raises \<^verbatim>\<open>JSONDecodeError\<close>) is not handled by the wrapper: the wrapper
  ends with that exception in the world \<^verbatim>\<open>load_memory\<close> left, in which no file has
  changed (no crash-log entry, no save) and the only effects are opening, reading and
  closing the memory file (no banner, no prompt; the chat loop is never called).
\<close>

theorem load_failure_is_fatal:
  assumes "fst (load_memory w) = Some e"
  shows "start_with_logging chat w = load_memory w
       \<and> fs (snd (load_memory w)) = fs w
       \<and> effects (snd (load_memory w)) =
           effects w @ [Opened DB_PATH ModeR, ReadAll DB_PATH, Closed DB_PATH]"
proof -
  have "start_with_logging chat w = load_memory w"
    using assms by (cases "load_memory w") (simp add: start_with_logging_def)
  moreover have "effects (snd (load_memory w)) =
           effects w @ [Opened DB_PATH ModeR, ReadAll DB_PATH, Closed DB_PATH]"
    using assms by (auto simp: load_memory_eq split: option.splits)
  ultimately show ?thesis by (simp add: load_memory_keeps_files)
qed

theorem load_failure_is_fatal_witness:
  "start_with_logging crashing_chat (first_run\<lparr>fs := [DB_PATH \<mapsto> str ''{'']\<rparr>) =
     (Some JSONDecodeError,
      \<lparr>fs = [DB_PATH \<mapsto> str ''{''], messages = PyList [],
       effects = [Opened DB_PATH ModeR, ReadAll DB_PATH, Closed DB_PATH]\<rparr>)"
proof -
  have bad: "json_loads (str ''{'') = None"
    by code_simp
  have l: "load_memory (first_run\<lparr>fs := [DB_PATH \<mapsto> str ''{'']\<rparr>) =
     (Some JSONDecodeError,
      \<lparr>fs = [DB_PATH \<mapsto> str ''{''], messages = PyList [],
       effects = [Opened DB_PATH ModeR, ReadAll DB_PATH, Closed DB_PATH]\<rparr>)"
    using load_memory_malformed [of "first_run\<lparr>fs := [DB_PATH \<mapsto> str ''{'']\<rparr>" "str ''{''", OF _ bad]
    by (simp add: first_run_def)
  then have "fst (load_memory (first_run\<lparr>fs := [DB_PATH \<mapsto> str ''{'']\<rparr>)) = Some JSONDecodeError"
    by simp
  from load_failure_is_fatal [OF this, of crashing_chat] l show ?thesis by simp
qed

section \<open>Round trip\<close>



section \<open>Saving\<close>






section \<open>The run wrapper\<close>

text \<open>
  C2. In every run in which the chat loop is called (\<^verbatim>\<open>load_memory\<close> returned), whether
  the chat loop returns or raises, \<^verbatim>\<open>save_memory\<close> runs before the wrapper exits: the
  final world is the one \<^verbatim>\<open>save_memory\<close> leaves, started from a world with the message
  list as the chat loop left it; the memory file holds what the encoder produced from
  that message list; and the effects after the chat loop contain the opening (for
  writing), the writing and the closing of the memory file.
\<close>

theorem save_always_attempted:
  assumes "load_memory w = (None, w1)" and "chat (py_print MSG_STARTED w1) = (x, w2)"
  shows "(\<exists>w3 before. snd (start_with_logging chat w) = snd (save_memory w3)
            \<and> messages w3 = messages w2 \<and> effects w3 = effects w2 @ before)
       \<and> fs (snd (start_with_logging chat w)) DB_PATH = Some (fst (iterencode 0 (messages w2)))
       \<and> (\<exists>before after. effects (snd (start_with_logging chat w)) =
             effects w2 @ before @
               [Opened DB_PATH ModeW, Written DB_PATH (fst (iterencode 0 (messages w2))),
                Closed DB_PATH] @ after)"
proof (cases x)
  case Returns
  with assms have s: "start_with_logging chat w = save_memory w2"
    by (simp add: start_with_logging_returns)
  have "\<exists>w3 before. snd (save_memory w2) = snd (save_memory w3)
            \<and> messages w3 = messages w2 \<and> effects w3 = effects w2 @ before"
    by (rule exI [of _ w2], rule exI [of _ "[]"]) simp
  moreover have "\<exists>before after. effects (snd (save_memory w2)) =
             effects w2 @ before @
               [Opened DB_PATH ModeW, Written DB_PATH (fst (iterencode 0 (messages w2))),
                Closed DB_PATH] @ after"
    by (rule exI [of _ "[]"], simp only: save_memory_effects append_Nil) blast
  ultimately show ?thesis by (simp add: s save_memory_file)
next
  case (Raises is_Exception tb)
  show ?thesis
  proof (cases is_Exception)
    case True
    with Raises assms have s: "start_with_logging chat w = save_memory (except_block tb w2)"
      by (simp add: start_with_logging_caught)
    have m: "messages (except_block tb w2) = messages w2"
      by (simp add: except_block_eq)
    have "\<exists>w3 before. snd (save_memory (except_block tb w2)) = snd (save_memory w3)
            \<and> messages w3 = messages w2 \<and> effects w3 = effects w2 @ before"
      by (rule exI [of _ "except_block tb w2"]) (simp add: except_block_eq)
    moreover have "\<exists>before after. effects (snd (save_memory (except_block tb w2))) =
             effects w2 @ before @
               [Opened DB_PATH ModeW, Written DB_PATH (fst (iterencode 0 (messages w2))),
                Closed DB_PATH] @ after"
    proof -
      obtain before where b: "effects (except_block tb w2) = effects w2 @ before"
        by (simp add: except_block_eq)
      show ?thesis
        by (rule exI [of _ before], simp only: save_memory_effects m b append_assoc) blast
    qed
    ultimately show ?thesis by (simp add: s save_memory_file m)
  next
    case False
    with Raises assms have s: "snd (start_with_logging chat w) = snd (save_memory w2)"
      by (simp add: start_with_logging_uncaught)
    have "\<exists>w3 before. snd (save_memory w2) = snd (save_memory w3)
            \<and> messages w3 = messages w2 \<and> effects w3 = effects w2 @ before"
      by (rule exI [of _ w2], rule exI [of _ "[]"]) simp
    moreover have "\<exists>before after. effects (snd (save_memory w2)) =
             effects w2 @ before @
               [Opened DB_PATH ModeW, Written DB_PATH (fst (iterencode 0 (messages w2))),
                Closed DB_PATH] @ after"
      by (rule exI [of _ "[]"], simp only: save_memory_effects append_Nil) blast
    ultimately show ?thesis by (simp add: s save_memory_file)
  qed
qed

theorem save_always_attempted_witness:
  "fs (snd (start_with_logging crashing_chat first_run)) DB_PATH = Some (json_dumps sample_messages)"
  using save_always_attempted [where chat = crashing_chat, OF first_run_loads crashing_chat_first_run]
  by (simp add: json_dumps_def)





text \<open>
  C10. When the chat loop raises an exception that is not derived from \<^verbatim>\<open>Exception\<close>,
  the \<^verbatim>\<open>except\<close> clause is skipped: the final world is what \<^verbatim>\<open>save_memory\<close> makes of the
  world the chat loop left, so the only effects after the chat loop are those of the
  save (no banner, no prompt) and the crash log is untouched. An exception leaves the
  wrapper: the one of the chat loop when the save returns, the \<^verbatim>\<open>TypeError\<close> of the save
  otherwise.
\<close>

theorem non_exception_skips_handler:
  assumes "load_memory w = (None, w1)"
    and "chat (py_print MSG_STARTED w1) = (Raises False tb, w2)"
  shows "snd (start_with_logging chat w) = snd (save_memory w2)
       \<and> effects (snd (start_with_logging chat w)) =
           effects w2 @
             [Opened DB_PATH ModeW, Written DB_PATH (fst (iterencode 0 (messages w2))),
              Closed DB_PATH] @
             (if json_serializable (messages w2) then [Printed MSG_SAVED] else [])
       \<and> fs (snd (start_with_logging chat w)) ''error_log.txt'' = fs w2 ''error_log.txt''
       \<and> fst (start_with_logging chat w) =
           Some (if json_serializable (messages w2) then FromChat False tb else TypeError)"
  using assms
  by (simp add: start_with_logging_uncaught save_memory_effects save_memory_file
      json_serializable_def)

theorem non_exception_skips_handler_witness:
  "start_with_logging interrupted_chat first_run =
     (Some (FromChat False (str ''KeyboardInterrupt'')),
      \<lparr>fs = [DB_PATH \<mapsto> json_dumps sample_messages], messages = sample_messages,
       effects = [Printed MSG_STARTED, Opened DB_PATH ModeW,
                  Written DB_PATH (json_dumps sample_messages), Closed DB_PATH,
                  Printed MSG_SAVED]\<rparr>)"
proof -
  have "save_memory \<lparr>fs = Map.empty, messages = sample_messages, effects = [Printed MSG_STARTED]\<rparr> =
     (None,
      \<lparr>fs = [DB_PATH \<mapsto> json_dumps sample_messages], messages = sample_messages,
       effects = [Printed MSG_STARTED, Opened DB_PATH ModeW,
                  Written DB_PATH (json_dumps sample_messages), Closed DB_PATH,
                  Printed MSG_SAVED]\<rparr>)"
    using sample_complete by (simp add: save_memory_eq Let_def json_dumps_def)
  with non_exception_skips_handler [where chat = interrupted_chat, OF first_run_loads interrupted_chat_first_run]
    sample_serializable
  show ?thesis
    by (cases "start_with_logging interrupted_chat first_run") simp
qed

end
